theory Spec2Isabelle
  imports Complex_Main "HOL-Library.Log_Nat"
begin

section \<open>The file generator script \<^verbatim>\<open>create_file.py\<close>\<close>

text \<open>
  The script opens \<^verbatim>\<open>./test.txt\<close> in text-write mode with UTF-8 encoding, writes a
  fixed chunk until \<^verbatim>\<open>f.tell()\<close> reaches the target size, closes the file, and
  evaluates the file's size in mebibytes.

  Everything the script does to the outside is a change of the file system, so the model
  passes a \<open>world\<close> (the files and the open handles) through every operation. What the
  operating system decides (the line separator of text mode, whether \<^verbatim>\<open>open\<close>
  succeeds, how far the file can grow before the disk is full) is the \<open>os_env\<close>.
  An exception of the source is the \<open>Inl\<close> branch of a result; the world is returned
  beside it, since what was written before the exception stays on disk.
\<close>

subsection \<open>Data\<close>

datatype error = FileNotFoundError | PermissionError | NoSpaceError | UnicodeEncodeError
  | ZeroDivisionError | OverflowError

text \<open>A Python \<^verbatim>\<open>str\<close> is a sequence of code points; a file holds bytes.\<close>

type_synonym pystr = "nat list"
type_synonym bytes = "char list"
type_synonym path = string

datatype platform = Posix | Windows

fun os_linesep :: "platform \<Rightarrow> pystr" where
  "os_linesep Posix = [10]"
| "os_linesep Windows = [13, 10]"

record os_env =
  platform_of :: platform
  open_error :: "path \<Rightarrow> error option"
  disk_limit :: nat

record world =
  files :: "path \<rightharpoonup> bytes"
  handles :: "path list"

text \<open>The file object \<^verbatim>\<open>f\<close>: the path it was opened on and its write position.\<close>

record textio =
  fpath :: path
  fpos :: nat

subsection \<open>Text mode: newline translation and UTF-8\<close>

text \<open>\<^verbatim>\<open>s * n\<close> on a string.\<close>

definition py_repeat :: "'a list \<Rightarrow> nat \<Rightarrow> 'a list" where
  "py_repeat s n = concat (replicate n s)"

text \<open>
  \<^verbatim>\<open>open(path, "w", encoding="utf-8")\<close> passes no \<^verbatim>\<open>newline\<close> argument, so every
  \<^verbatim>\<open>"\n"\<close> written is replaced by \<^verbatim>\<open>os.linesep\<close> before encoding.
\<close>

definition translate_newlines :: "platform \<Rightarrow> pystr \<Rightarrow> pystr" where
  "translate_newlines pf s = concat (map (\<lambda>c. if c = 10 then os_linesep pf else [c]) s)"

text \<open>UTF-8 of one code point; a surrogate cannot be encoded.\<close>

definition utf8_cp :: "nat \<Rightarrow> error + bytes" where
  "utf8_cp c =
     (if c < 0x80 then Inr [char_of c]
      else if c < 0x800 then Inr [char_of (0xC0 + c div 64), char_of (0x80 + c mod 64)]
      else if 0xD800 \<le> c \<and> c \<le> 0xDFFF then Inl UnicodeEncodeError
      else if c < 0x10000 then
        Inr [char_of (0xE0 + c div 4096), char_of (0x80 + c div 64 mod 64),
             char_of (0x80 + c mod 64)]
      else
        Inr [char_of (0xF0 + c div 262144 mod 8), char_of (0x80 + c div 4096 mod 64),
             char_of (0x80 + c div 64 mod 64), char_of (0x80 + c mod 64)])"

fun utf8_encode :: "pystr \<Rightarrow> error + bytes" where
  "utf8_encode [] = Inr []"
| "utf8_encode (c # cs) =
     (case utf8_cp c of
        Inl e \<Rightarrow> Inl e
      | Inr b \<Rightarrow> (case utf8_encode cs of Inl e \<Rightarrow> Inl e | Inr bs \<Rightarrow> Inr (b @ bs)))"

definition text_encode :: "platform \<Rightarrow> pystr \<Rightarrow> error + bytes" where
  "text_encode pf s = utf8_encode (translate_newlines pf s)"

subsection \<open>File operations\<close>

definition content :: "world \<Rightarrow> path \<Rightarrow> bytes" where
  "content w p = (case files w p of None \<Rightarrow> [] | Some c \<Rightarrow> c)"

text \<open>
  \<^verbatim>\<open>open(path, "w", ...)\<close>: raises what the operating system reports (a missing parent
  directory, no permission) and then touches nothing; otherwise creates or truncates the
  file and hands out a file object at position 0.
\<close>

definition open_w :: "os_env \<Rightarrow> path \<Rightarrow> world \<Rightarrow> (error + textio) \<times> world" where
  "open_w env p w =
     (case open_error env p of
        Some e \<Rightarrow> (Inl e, w)
      | None \<Rightarrow> (Inr \<lparr>fpath = p, fpos = 0\<rparr>,
                 w\<lparr>files := (files w)(p \<mapsto> []), handles := p # handles w\<rparr>))"

text \<open>\<^verbatim>\<open>f.tell()\<close>: the bytes written so far through this file object.\<close>

definition tell :: "textio \<Rightarrow> int" where
  "tell f = int (fpos f)"

text \<open>
  \<^verbatim>\<open>f.write(s)\<close>: the string is encoded first (an encoding error writes nothing), then
  the bytes go to the end of the file. When they do not fit, the bytes that fit are
  written and the error propagates.
\<close>

definition f_write :: "os_env \<Rightarrow> textio \<Rightarrow> pystr \<Rightarrow> world \<Rightarrow> (error + textio) \<times> world" where
  "f_write env f s w =
     (case text_encode (platform_of env) s of
        Inl e \<Rightarrow> (Inl e, w)
      | Inr data \<Rightarrow>
          (let old = content w (fpath f); room = disk_limit env - length old in
           if length data \<le> room
           then (Inr (f\<lparr>fpos := fpos f + length data\<rparr>),
                 w\<lparr>files := (files w)(fpath f \<mapsto> old @ data)\<rparr>)
           else (Inl NoSpaceError,
                 w\<lparr>files := (files w)(fpath f \<mapsto> old @ take room data)\<rparr>)))"

definition close :: "textio \<Rightarrow> world \<Rightarrow> world" where
  "close f w = w\<lparr>handles := remove1 (fpath f) (handles w)\<rparr>"

text \<open>\<^verbatim>\<open>os.path.getsize(path)\<close>.\<close>

definition getsize :: "world \<Rightarrow> path \<Rightarrow> error + nat" where
  "getsize w p = (case files w p of None \<Rightarrow> Inl FileNotFoundError | Some c \<Rightarrow> Inr (length c))"

subsection \<open>The write loop and the \<^verbatim>\<open>with\<close> block\<close>

text \<open>
  \<^verbatim>\<open>while f.tell() < target_size: f.write(chunk)\<close>. With an empty chunk the position never
  moves and the loop does not return: that is the value \<open>None\<close>.
\<close>

partial_function (option) write_loop ::
  "os_env \<Rightarrow> int \<Rightarrow> pystr \<Rightarrow> textio \<Rightarrow> world \<Rightarrow> ((error + textio) \<times> world) option" where
  "write_loop env T s f w =
     (if tell f < T then
        (case f_write env f s w of
           (Inl e, w') \<Rightarrow> Some (Inl e, w')
         | (Inr f', w') \<Rightarrow> write_loop env T s f' w')
      else Some (Inr f, w))"

declare write_loop.simps [code]

text \<open>
  \<^verbatim>\<open>with open(path, "w", encoding="utf-8") as f: ...\<close>: the file object is closed when the
  block is left, by the end of the loop or by an exception, and the exception goes on.
\<close>

definition generate ::
  "os_env \<Rightarrow> path \<Rightarrow> int \<Rightarrow> pystr \<Rightarrow> world \<Rightarrow> ((error + unit) \<times> world) option" where
  "generate env p T s w =
     (case open_w env p w of
        (Inl e, w') \<Rightarrow> Some (Inl e, w')
      | (Inr f, w') \<Rightarrow>
          (case write_loop env T s f w' of
             None \<Rightarrow> None
           | Some (Inl e, w'') \<Rightarrow> Some (Inl e, close f w'')
           | Some (Inr f', w'') \<Rightarrow> Some (Inr (), close f' w'')))"

subsection \<open>True division of integers\<close>

text \<open>
  \<^verbatim>\<open>a / b\<close> on two Python integers is the IEEE-754 binary64 value nearest to the exact
  quotient (ties to the even mantissa). A finite binary64 value is a rational number, and
  the model returns that rational. \<open>ilog2 x\<close> is the binary exponent of a positive \<open>x\<close>.
\<close>

definition ilog2 :: "rat \<Rightarrow> int" where
  "ilog2 x =
     (let (a, b) = quotient_of x; d = bitlen a - bitlen b
      in if 2 powi d \<le> x then d else d - 1)"

definition round_half_even :: "rat \<Rightarrow> int" where
  "round_half_even x =
     (let n = \<lfloor>x\<rfloor>; r = x - of_int n
      in if r < 1 / 2 then n else if 1 / 2 < r then n + 1 else if even n then n else n + 1)"

definition round_binary64 :: "rat \<Rightarrow> error + rat" where
  "round_binary64 x =
     (if x = 0 then Inr 0
      else
        let e = max (ilog2 \<bar>x\<bar> - 52) (- 1074);
            m = round_half_even (\<bar>x\<bar> / 2 powi e);
            y = of_int m * 2 powi e
        in if 2 powi 1024 \<le> y then Inl OverflowError else Inr (sgn x * y))"

definition py_truediv :: "int \<Rightarrow> int \<Rightarrow> error + rat" where
  "py_truediv a b =
     (if b = 0 then Inl ZeroDivisionError else round_binary64 (of_int a / of_int b))"

subsection \<open>The size report and the whole script\<close>

text \<open>
  \<^verbatim>\<open>actual_size = os.path.getsize(path); actual_size_MB = actual_size / (1024 * 1024)\<close>.
\<close>

definition report_size :: "world \<Rightarrow> path \<Rightarrow> error + nat \<times> rat" where
  "report_size w p =
     (case getsize w p of
        Inl e \<Rightarrow> Inl e
      | Inr actual_size \<Rightarrow>
          (case py_truediv (int actual_size) (1024 * 1024) of
             Inl e \<Rightarrow> Inl e
           | Inr actual_size_MB \<Rightarrow> Inr (actual_size, actual_size_MB)))"

subsection \<open>The constants of the script\<close>

definition target_size :: int where
  "target_size = 1000 * 1024 * 1024"

definition file_path_1mb :: path where
  "file_path_1mb = ''./test.txt''"

definition chunk :: pystr where
  "chunk = py_repeat (map of_char ''ABCDEFGHIJKLMNOPQRSTUVWXYZ0123456789\<newline>'') 100"

text \<open>
  The script from top to bottom. An exception in the \<^verbatim>\<open>with\<close> block ends the run,
  so the size is not queried then.
\<close>

definition script :: "os_env \<Rightarrow> world \<Rightarrow> ((error + nat \<times> rat) \<times> world) option" where
  "script env w =
     (case generate env file_path_1mb target_size chunk w of
        None \<Rightarrow> None
      | Some (Inl e, w') \<Rightarrow> Some (Inl e, w')
      | Some (Inr u, w') \<Rightarrow> Some (report_size w' file_path_1mb, w'))"

subsection \<open>Auxiliary notions for the statements\<close>

text \<open>
  The number of chunks of \<open>L\<close> bytes the loop writes from position \<open>pos\<close> on:
  the least \<open>k\<close> with \<open>T \<le> pos + k * L\<close>.
\<close>

definition chunks_needed :: "int \<Rightarrow> nat \<Rightarrow> nat \<Rightarrow> nat" where
  "chunks_needed T pos L =
     (if T \<le> int pos then 0 else nat ((T - int pos + int L - 1) div int L))"

text \<open>An environment in which nothing fails, and an empty file system, for the examples.\<close>

definition quiet_env :: "platform \<Rightarrow> nat \<Rightarrow> os_env" where
  "quiet_env pf limit = \<lparr>platform_of = pf, open_error = (\<lambda>p. None), disk_limit = limit\<rparr>"

definition empty_world :: world where
  "empty_world = \<lparr>files = Map.empty, handles = []\<rparr>"

section \<open>Properties of the encoder\<close>

lemma utf8_cp_nonempty: "utf8_cp c = Inr b \<Longrightarrow> b \<noteq> []"
  by (auto simp: utf8_cp_def split: if_splits)

lemma utf8_encode_nonempty: "utf8_encode s = Inr d \<Longrightarrow> s \<noteq> [] \<Longrightarrow> d \<noteq> []"
  by (cases s) (auto split: sum.splits dest: utf8_cp_nonempty)

lemma translate_newlines_nonempty: "s \<noteq> [] \<Longrightarrow> translate_newlines pf s \<noteq> []"
  by (cases s; cases pf) (auto simp: translate_newlines_def)

lemma text_encode_nonempty: "text_encode pf s = Inr d \<Longrightarrow> s \<noteq> [] \<Longrightarrow> d \<noteq> []"
  unfolding text_encode_def
  using utf8_encode_nonempty [of "translate_newlines pf s" d] translate_newlines_nonempty [of s pf]
  by simp

lemma utf8_encode_append:
  "utf8_encode a = Inr x \<Longrightarrow> utf8_encode b = Inr y \<Longrightarrow> utf8_encode (a @ b) = Inr (x @ y)"
  by (induction a arbitrary: x) (auto split: sum.splits)

lemma utf8_encode_repeat:
  "utf8_encode a = Inr x \<Longrightarrow> utf8_encode (concat (replicate n a)) = Inr (concat (replicate n x))"
  by (induction n) (auto simp: utf8_encode_append)

lemma translate_newlines_repeat:
  "translate_newlines pf (concat (replicate n a)) = concat (replicate n (translate_newlines pf a))"
  by (induction n) (auto simp: translate_newlines_def)

lemma text_encode_repeat:
  "text_encode pf a = Inr x \<Longrightarrow> text_encode pf (py_repeat a n) = Inr (py_repeat x n)"
  by (simp add: text_encode_def py_repeat_def translate_newlines_repeat utf8_encode_repeat)

lemma length_py_repeat: "length (py_repeat a n) = n * length a"
  by (induction n) (auto simp: py_repeat_def)

section \<open>How many chunks the loop writes\<close>

lemma chunks_needed_reaches:
  assumes "0 < L"
  shows "T \<le> int (pos + chunks_needed T pos L * L)"
proof (cases "T \<le> int pos")
  case True
  then show ?thesis by (simp add: chunks_needed_def)
next
  case False
  define d where "d = T - int pos"
  define q where "q = (d + int L - 1) div int L"
  have dpos: "0 < d" using False by (simp add: d_def)
  have "d + int L - 1 < (q + 1) * int L"
    unfolding q_def using assms
    by (metis add.commute div_mult_mod_eq distrib_right mult.commute mult_1 
        add_less_cancel_left pos_mod_bound of_nat_0_less_iff)
  hence le: "d \<le> q * int L" by (simp add: algebra_simps)
  have "0 \<le> q" unfolding q_def using dpos assms by (simp add: pos_imp_zdiv_nonneg_iff)
  hence "int (chunks_needed T pos L) = q"
    using False by (simp add: chunks_needed_def q_def d_def)
  then show ?thesis using le by (simp add: d_def)
qed

lemma chunks_needed_least:
  assumes "0 < L" "j < chunks_needed T pos L"
  shows "int (pos + j * L) < T"
proof -
  have F: "\<not> T \<le> int pos" using assms(2) by (auto simp: chunks_needed_def split: if_splits)
  define d where "d = T - int pos"
  define q where "q = (d + int L - 1) div int L"
  have "int j < q" using assms(2) F by (simp add: chunks_needed_def q_def d_def)
  hence "int j + 1 \<le> q" by simp
  hence "(int j + 1) * int L \<le> q * int L" using assms(1) by (simp add: mult_right_mono)
  also have "q * int L \<le> d + int L - 1"
    unfolding q_def using assms(1)
    by (metis mult.commute of_nat_0_less_iff pos_mod_sign div_mult_mod_eq le_add_same_cancel1)
  finally have "int j * int L < d" by (simp add: algebra_simps)
  then show ?thesis by (simp add: d_def)
qed

section \<open>The write loop in closed form\<close>

lemma content_at: "files w p = Some old \<Longrightarrow> content w p = old"
  by (simp add: content_def)

lemma f_write_fits:
  assumes "text_encode (platform_of env) s = Inr data" "files w p = Some old"
    and "length old + length data \<le> disk_limit env"
  shows "f_write env \<lparr>fpath = p, fpos = n\<rparr> s w =
           (Inr \<lparr>fpath = p, fpos = n + length data\<rparr>,
            w\<lparr>files := (files w)(p \<mapsto> old @ data)\<rparr>)"
  using assms by (simp add: f_write_def content_at Let_def)

lemma f_write_full:
  assumes "text_encode (platform_of env) s = Inr data" "files w p = Some old"
    and "length old \<le> disk_limit env" "\<not> length old + length data \<le> disk_limit env"
  shows "f_write env \<lparr>fpath = p, fpos = n\<rparr> s w =
           (Inl NoSpaceError,
            w\<lparr>files := (files w)(p \<mapsto> old @ take (disk_limit env - length old) data)\<rparr>)"
  using assms by (auto simp add: f_write_def content_at Let_def)

lemma write_loop_run:
  assumes enc: "text_encode (platform_of env) s = Inr data"
    and fl: "files w p = Some old"
    and fits: "length old \<le> disk_limit env"
    and reach: "T \<le> int (length old + k * length data)"
    and least: "\<forall>j<k. int (length old + j * length data) < T"
  shows "write_loop env T s \<lparr>fpath = p, fpos = length old\<rparr> w =
     Some (if length old + k * length data \<le> disk_limit env
           then (Inr \<lparr>fpath = p, fpos = length old + k * length data\<rparr>,
                 w\<lparr>files := (files w)(p \<mapsto> old @ concat (replicate k data))\<rparr>)
           else (Inl NoSpaceError,
                 w\<lparr>files := (files w)(p \<mapsto>
                      old @ take (disk_limit env - length old) (concat (replicate k data)))\<rparr>))"
  using fl fits reach least
proof (induction k arbitrary: old w)
  case 0
  have "(files w)(p \<mapsto> old) = files w" using "0.prems"(1) by (rule map_upd_triv)
  then show ?case using "0.prems" by (subst write_loop.simps) (simp add: tell_def)
next
  case (Suc k)
  let ?L = "length data"
  have below: "int (length old) < T" using Suc.prems(4) by force
  show ?case
  proof (cases "length old + ?L \<le> disk_limit env")
    case True
    let ?w = "w\<lparr>files := (files w)(p \<mapsto> old @ data)\<rparr>"
    have step: "write_loop env T s \<lparr>fpath = p, fpos = length old\<rparr> w =
                write_loop env T s \<lparr>fpath = p, fpos = length (old @ data)\<rparr> ?w"
      using below f_write_fits [OF enc Suc.prems(1) True]
      by (subst write_loop.simps) (simp add: tell_def)
    have least': "\<forall>j<k. int (length (old @ data) + j * ?L) < T"
    proof (intro allI impI)
      fix j assume "j < k"
      hence "int (length old + Suc j * ?L) < T" using Suc.prems(4) by blast
      thus "int (length (old @ data) + j * ?L) < T" by (simp add: algebra_simps)
    qed
    have IH: "write_loop env T s \<lparr>fpath = p, fpos = length (old @ data)\<rparr> ?w =
       Some (if length (old @ data) + k * ?L \<le> disk_limit env
             then (Inr \<lparr>fpath = p, fpos = length (old @ data) + k * ?L\<rparr>,
                   ?w\<lparr>files := (files ?w)(p \<mapsto> (old @ data) @ concat (replicate k data))\<rparr>)
             else (Inl NoSpaceError,
                   ?w\<lparr>files := (files ?w)(p \<mapsto> (old @ data) @
                        take (disk_limit env - length (old @ data)) (concat (replicate k data)))\<rparr>))"
      using Suc.prems(3) True by (intro Suc.IH least') (simp_all add: algebra_simps)
    have tk: "take (disk_limit env - length old) (data @ concat (replicate k data)) =
              data @ take (disk_limit env - length (old @ data)) (concat (replicate k data))"
      using True by simp
    show ?thesis unfolding step IH using tk by (simp add: algebra_simps)
  next
    case False
    have "write_loop env T s \<lparr>fpath = p, fpos = length old\<rparr> w =
          Some (Inl NoSpaceError,
                w\<lparr>files := (files w)(p \<mapsto> old @ take (disk_limit env - length old) data)\<rparr>)"
      using below f_write_full [OF enc Suc.prems(1) Suc.prems(2) False]
      by (subst write_loop.simps) (simp add: tell_def)
    then show ?thesis using False by simp
  qed
qed

lemma write_loop_done:
  "T \<le> tell f \<Longrightarrow> write_loop env T s f w = Some (Inr f, w)"
  by (subst write_loop.simps) simp

lemma write_loop_encode_error:
  "tell f < T \<Longrightarrow> text_encode (platform_of env) s = Inl e \<Longrightarrow>
   write_loop env T s f w = Some (Inl e, w)"
  by (subst write_loop.simps) (simp add: f_write_def)

section \<open>The \<^verbatim>\<open>with\<close> block in closed form\<close>

lemma length_concat_replicate: "length (concat (replicate k xs)) = k * length xs"
  by (induction k) simp_all

lemma generate_open_error:
  "open_error env p = Some e \<Longrightarrow> generate env p T s w = Some (Inl e, w)"
  by (simp add: generate_def open_w_def)

lemma generate_nonpositive:
  "open_error env p = None \<Longrightarrow> T \<le> 0 \<Longrightarrow>
   generate env p T s w = Some (Inr (), w\<lparr>files := (files w)(p \<mapsto> [])\<rparr>)"
  by (simp add: generate_def open_w_def write_loop_done tell_def close_def)

lemma generate_encode_error:
  "open_error env p = None \<Longrightarrow> 0 < T \<Longrightarrow> text_encode (platform_of env) s = Inl e \<Longrightarrow>
   generate env p T s w = Some (Inl e, w\<lparr>files := (files w)(p \<mapsto> [])\<rparr>)"
  by (simp add: generate_def open_w_def write_loop_encode_error tell_def close_def)

lemma generate_run:
  assumes ok: "open_error env p = None"
    and enc: "text_encode (platform_of env) s = Inr data"
    and ne: "data \<noteq> []"
  shows "generate env p T s w =
     Some (if chunks_needed T 0 (length data) * length data \<le> disk_limit env
           then (Inr (),
                 w\<lparr>files := (files w)(p \<mapsto> concat (replicate (chunks_needed T 0 (length data)) data))\<rparr>)
           else (Inl NoSpaceError,
                 w\<lparr>files := (files w)(p \<mapsto>
                      take (disk_limit env)
                        (concat (replicate (chunks_needed T 0 (length data)) data)))\<rparr>))"
proof -
  let ?k = "chunks_needed T 0 (length data)"
  let ?w = "w\<lparr>files := (files w)(p \<mapsto> []), handles := p # handles w\<rparr>"
  have L: "0 < length data" using ne by simp
  have loop: "write_loop env T s \<lparr>fpath = p, fpos = length ([]::bytes)\<rparr> ?w =
     Some (if length ([]::bytes) + ?k * length data \<le> disk_limit env
           then (Inr \<lparr>fpath = p, fpos = length ([]::bytes) + ?k * length data\<rparr>,
                 ?w\<lparr>files := (files ?w)(p \<mapsto> [] @ concat (replicate ?k data))\<rparr>)
           else (Inl NoSpaceError,
                 ?w\<lparr>files := (files ?w)(p \<mapsto>
                      [] @ take (disk_limit env - length ([]::bytes)) (concat (replicate ?k data)))\<rparr>))"
  proof (rule write_loop_run [OF enc])
    show "files ?w p = Some []" by simp
    show "length ([]::bytes) \<le> disk_limit env" by simp
    show "T \<le> int (length ([]::bytes) + ?k * length data)"
      using chunks_needed_reaches [OF L, of T 0] by simp
    show "\<forall>j<?k. int (length ([]::bytes) + j * length data) < T"
      using chunks_needed_least [OF L, of _ T 0] by simp
  qed
  show ?thesis
    using ok loop by (simp add: generate_def open_w_def close_def)
qed

section \<open>The size of the generated file\<close>

lemma chunks_needed_bounds:
  assumes "0 < L" "0 < T"
  shows "T \<le> int (chunks_needed T 0 L * L) \<and> int (chunks_needed T 0 L * L) < T + int L"
proof -
  let ?k = "chunks_needed T 0 L"
  have up: "T \<le> int (?k * L)" using chunks_needed_reaches [OF assms(1), of T 0] by simp
  have "0 < ?k" using up assms(2) by (cases ?k) simp_all
  hence "int (0 + (?k - 1) * L) < T" by (intro chunks_needed_least [OF assms(1)]) simp
  moreover have "?k * L = (?k - 1) * L + L" using \<open>0 < ?k\<close> by (cases ?k) simp_all
  ultimately show ?thesis using up by simp
qed

lemma generate_success:
  assumes "0 < T" "s \<noteq> []" "\<forall>e w'. generate env p T s w \<noteq> Some (Inl e, w')"
  shows "\<exists>data. text_encode (platform_of env) s = Inr data \<and> data \<noteq> [] \<and>
           generate env p T s w = Some (Inr (),
             w\<lparr>files := (files w)(p \<mapsto> concat (replicate (chunks_needed T 0 (length data)) data))\<rparr>)"
proof (cases "open_error env p")
  case (Some e)
  then show ?thesis using assms(3) generate_open_error [of env p e T s w] by simp
next
  case None
  show ?thesis
  proof (cases "text_encode (platform_of env) s")
    case (Inl e)
    then show ?thesis using assms(1,3) generate_encode_error [OF None, of T s e w] by simp
  next
    case (Inr data)
    have ne: "data \<noteq> []" using text_encode_nonempty [OF Inr assms(2)] .
    show ?thesis using generate_run [OF None Inr ne, of T w] assms(3) Inr ne
      by (auto split: if_splits)
  qed
qed

text \<open>
  C1. For a positive target \<open>T\<close> and a non-empty chunk, a run that raises no I/O error
  returns, and the file it leaves has a size \<open>S\<close> with \<open>T \<le> S < T + L\<close>, where \<open>L\<close> is the
  number of bytes one write of the chunk puts into the file.
\<close>

theorem generated_size_bounds:
  assumes "0 < T" and "s \<noteq> []"
    and "\<forall>e w'. generate env p T s w \<noteq> Some (Inl e, w')"
  shows "\<exists>w' data S. generate env p T s w = Some (Inr (), w')
           \<and> text_encode (platform_of env) s = Inr data
           \<and> getsize w' p = Inr S \<and> T \<le> int S \<and> int S < T + int (length data)"
proof -
  obtain data where enc: "text_encode (platform_of env) s = Inr data" and ne: "data \<noteq> []"
    and run: "generate env p T s w = Some (Inr (),
         w\<lparr>files := (files w)(p \<mapsto> concat (replicate (chunks_needed T 0 (length data)) data))\<rparr>)"
    using generate_success [OF assms] by blast
  have "0 < length data" using ne by simp
  from chunks_needed_bounds [OF this assms(1)] enc run show ?thesis
    by (simp add: getsize_def length_concat_replicate)
qed

lemma quiet_env_sel [simp]:
  "platform_of (quiet_env pf n) = pf" "open_error (quiet_env pf n) p = None"
  "disk_limit (quiet_env pf n) = n"
  by (simp_all add: quiet_env_def)

lemma encode_AB_posix: "text_encode Posix [65, 66, 10] = Inr ''AB\<newline>''"
  by code_simp

lemma ex_run: "generate (quiet_env Posix 100) ''f'' 10 [65, 66, 10] empty_world =
   Some (Inr (), empty_world\<lparr>files := (files empty_world)(''f'' \<mapsto> concat (replicate 4 ''AB\<newline>''))\<rparr>)"
proof -
  have k: "chunks_needed 10 0 (length ''AB\<newline>'') = 4" by (simp add: chunks_needed_def)
  have "text_encode (platform_of (quiet_env Posix 100)) [65, 66, 10] = Inr ''AB\<newline>''"
    by (simp add: encode_AB_posix)
  from generate_run [OF _ this, of "''f''" 10 empty_world, unfolded k]
  show ?thesis by simp
qed

theorem generated_size_bounds_witness:
  "\<exists>w' data S. generate (quiet_env Posix 100) ''f'' 10 [65, 66, 10] empty_world = Some (Inr (), w')
      \<and> text_encode (platform_of (quiet_env Posix 100)) [65, 66, 10] = Inr data
      \<and> getsize w' ''f'' = Inr S \<and> 10 \<le> int S \<and> int S < 10 + int (length data)"
proof -
  have "\<forall>e w'. generate (quiet_env Posix 100) ''f'' 10 [65, 66, 10] empty_world \<noteq> Some (Inl e, w')"
    by (simp add: ex_run)
  from generated_size_bounds [OF _ _ this] show ?thesis by simp
qed


lemma line_posix: "text_encode Posix (map of_char ''ABCDEFGHIJKLMNOPQRSTUVWXYZ0123456789\<newline>'')
   = Inr ''ABCDEFGHIJKLMNOPQRSTUVWXYZ0123456789\<newline>''"
  by code_simp
lemma line_windows: "text_encode Windows (map of_char ''ABCDEFGHIJKLMNOPQRSTUVWXYZ0123456789\<newline>'')
   = Inr (''ABCDEFGHIJKLMNOPQRSTUVWXYZ0123456789'' @ [CHR 0x0D, CHR 0x0A])"
  by code_simp

section \<open>The target size\<close>

lemma chunk_encoded:
  "\<exists>ln. text_encode pf chunk = Inr (py_repeat ln 100) \<and>
        length ln = (case pf of Posix \<Rightarrow> 37 | Windows \<Rightarrow> 38)"
proof (cases pf)
  case Posix
  show ?thesis unfolding chunk_def Posix
    using text_encode_repeat [OF line_posix, of 100] by auto
next
  case Windows
  show ?thesis unfolding chunk_def Windows
    using text_encode_repeat [OF line_windows, of 100] by auto
qed

lemma chunk_encoded_length:
  "\<exists>data. text_encode pf chunk = Inr data \<and>
        length data = (case pf of Posix \<Rightarrow> 3700 | Windows \<Rightarrow> 3800)"
  using chunk_encoded [of pf] by (cases pf) (auto simp: length_py_repeat)

text \<open>
  C5. The target size is \<open>1000 * 1024 * 1024 = 1,048,576,000\<close> bytes, that is 1000 MiB and
  not the 1 MiB of the source comment, and it stays that value for the whole run: when the
  file can be opened and the disk has room, the script's \<^verbatim>\<open>with\<close> block writes \<open>k\<close>
  chunks, where \<open>k\<close> chunks reach 1,048,576,000 bytes and no smaller number of chunks does.
  So every iteration compared the position with the same 1,048,576,000.
\<close>

theorem target_size_value:
  assumes "open_error env file_path_1mb = None" and "1048579800 \<le> disk_limit env"
  shows "target_size = 1048576000 \<and> target_size = 1000 * (1024 * 1024)
       \<and> target_size \<noteq> 1024 * 1024
       \<and> (\<exists>data k w'. text_encode (platform_of env) chunk = Inr data
             \<and> generate env file_path_1mb target_size chunk w = Some (Inr (), w')
             \<and> files w' file_path_1mb = Some (concat (replicate k data))
             \<and> 1048576000 \<le> int (k * length data)
             \<and> (\<forall>j<k. int (j * length data) < 1048576000))"
proof -
  have T: "target_size = 1048576000" by (simp add: target_size_def)
  obtain data where enc: "text_encode (platform_of env) chunk = Inr data"
    and len: "length data = (case platform_of env of Posix \<Rightarrow> 3700 | Windows \<Rightarrow> 3800)"
    using chunk_encoded_length by blast
  have L: "0 < length data" and L': "length data \<le> 3800"
    using len by (cases "platform_of env"; simp)+
  hence ne: "data \<noteq> []" by auto
  let ?k = "chunks_needed target_size 0 (length data)"
  have b: "target_size \<le> int (?k * length data)"
     "int (?k * length data) < target_size + int (length data)"
    using chunks_needed_bounds [OF L, of target_size] T by simp_all
  hence room: "?k * length data \<le> disk_limit env" using assms(2) L' T by linarith
  have least: "\<forall>j<?k. int (j * length data) < 1048576000"
    using chunks_needed_least [OF L, of _ target_size 0] T by simp
  have "generate env file_path_1mb target_size chunk w =
        Some (Inr (), w\<lparr>files := (files w)(file_path_1mb \<mapsto> concat (replicate ?k data))\<rparr>)"
    using generate_run [OF assms(1) enc ne, of target_size w] room by simp
  with enc b(1) least T show ?thesis
    by (intro conjI exI [of _ data] exI [of _ ?k]
        exI [of _ "w\<lparr>files := (files w)(file_path_1mb \<mapsto> concat (replicate ?k data))\<rparr>"]) simp_all
qed

theorem target_size_value_witness:
  "target_size = 1048576000 \<and> target_size = 1000 * (1024 * 1024)
   \<and> target_size \<noteq> 1024 * 1024
   \<and> (\<exists>data k w'. text_encode Posix chunk = Inr data
         \<and> generate (quiet_env Posix 2000000000) file_path_1mb target_size chunk empty_world
             = Some (Inr (), w')
         \<and> files w' file_path_1mb = Some (concat (replicate k data))
         \<and> 1048576000 \<le> int (k * length data)
         \<and> (\<forall>j<k. int (j * length data) < 1048576000))"
proof -
  have "open_error (quiet_env Posix 2000000000) file_path_1mb = None"
    and "1048579800 \<le> disk_limit (quiet_env Posix 2000000000)" by simp_all
  from target_size_value [OF this, of empty_world, unfolded quiet_env_sel]
  show ?thesis .
qed

section \<open>The content of the generated file\<close>

text \<open>
  C3. For a positive target and a non-empty chunk, the file a run without I/O error leaves
  is the written chunk repeated \<open>S div L\<close> times, \<open>S\<close> the file's size and \<open>L\<close> the bytes of
  one chunk: it is what the text layer writes for the string \<^verbatim>\<open>chunk * (S // L)\<close>.
\<close>

theorem generated_content:
  assumes "0 < T" and "s \<noteq> []"
    and "\<forall>e w'. generate env p T s w \<noteq> Some (Inl e, w')"
  shows "\<exists>w' data c. generate env p T s w = Some (Inr (), w')
           \<and> text_encode (platform_of env) s = Inr data
           \<and> files w' p = Some c
           \<and> c = py_repeat data (length c div length data)
           \<and> text_encode (platform_of env) (py_repeat s (length c div length data)) = Inr c"
proof -
  obtain data where enc: "text_encode (platform_of env) s = Inr data" and ne: "data \<noteq> []"
    and run: "generate env p T s w = Some (Inr (),
         w\<lparr>files := (files w)(p \<mapsto> concat (replicate (chunks_needed T 0 (length data)) data))\<rparr>)"
    using generate_success [OF assms] by blast
  let ?k = "chunks_needed T 0 (length data)"
  let ?c = "concat (replicate ?k data)"
  have "length ?c div length data = ?k" using ne by (simp add: length_concat_replicate)
  hence "?c = py_repeat data (length ?c div length data)"
    and "text_encode (platform_of env) (py_repeat s (length ?c div length data)) = Inr ?c"
    using text_encode_repeat [OF enc, of ?k] by (simp_all add: py_repeat_def)
  with enc run show ?thesis
    by (rule_tac x = "w\<lparr>files := (files w)(p \<mapsto> ?c)\<rparr>" in exI, rule_tac x = data in exI,
        rule_tac x = ?c in exI) simp
qed

theorem generated_content_witness:
  "\<exists>w' data c. generate (quiet_env Posix 100) ''f'' 10 [65, 66, 10] empty_world = Some (Inr (), w')
      \<and> text_encode (platform_of (quiet_env Posix 100)) [65, 66, 10] = Inr data
      \<and> files w' ''f'' = Some c
      \<and> c = py_repeat data (length c div length data)
      \<and> text_encode (platform_of (quiet_env Posix 100))
            (py_repeat [65, 66, 10] (length c div length data)) = Inr c"
proof -
  have "\<forall>e w'. generate (quiet_env Posix 100) ''f'' 10 [65, 66, 10] empty_world \<noteq> Some (Inl e, w')"
    by (simp add: ex_run)
  from generated_content [OF _ _ this] show ?thesis by simp
qed

section \<open>Termination of the write loop\<close>




section \<open>A target that is not positive\<close>

text \<open>
  C9. With a target that is zero or negative the loop condition fails before the first
  write: the loop returns at once, and the \<^verbatim>\<open>with\<close> block leaves the file truncated
  to zero bytes, whatever it held before and whatever the chunk is.
\<close>

theorem nonpositive_target_writes_nothing:
  assumes "T \<le> 0" and "open_error env p = None"
  shows "generate env p T s w = Some (Inr (), w\<lparr>files := (files w)(p \<mapsto> [])\<rparr>)
       \<and> getsize (w\<lparr>files := (files w)(p \<mapsto> [])\<rparr>) p = Inr 0
       \<and> write_loop env T s \<lparr>fpath = p, fpos = 0\<rparr> w = Some (Inr \<lparr>fpath = p, fpos = 0\<rparr>, w)"
  using assms by (simp add: generate_nonpositive getsize_def write_loop_done tell_def)

theorem nonpositive_target_writes_nothing_witness:
  "generate (quiet_env Posix 100) ''f'' 0 [65, 66, 10] (empty_world\<lparr>files := [''f'' \<mapsto> ''old'']\<rparr>)
     = Some (Inr (), empty_world\<lparr>files := [''f'' \<mapsto> []]\<rparr>)
   \<and> getsize (empty_world\<lparr>files := [''f'' \<mapsto> []]\<rparr>) ''f'' = Inr 0"
  using nonpositive_target_writes_nothing [of 0 "quiet_env Posix 100" "''f''" "[65, 66, 10]"
           "empty_world\<lparr>files := [''f'' \<mapsto> ''old'']\<rparr>"]
  by simp

section \<open>Re-running, errors and determinism\<close>

lemma generate_shape:
  assumes "open_error env p = None" and "s \<noteq> []"
  shows "\<exists>r c. \<forall>w. generate env p T s w = Some (r, w\<lparr>files := (files w)(p \<mapsto> c)\<rparr>)"
proof (cases "text_encode (platform_of env) s")
  case (Inl e)
  show ?thesis
  proof (cases "0 < T")
    case True
    then show ?thesis using generate_encode_error [OF assms(1) _ Inl] by blast
  next
    case False
    hence "T \<le> 0" by simp
    then show ?thesis using generate_nonpositive [OF assms(1)] by blast
  qed
next
  case (Inr data)
  have ne: "data \<noteq> []" using text_encode_nonempty [OF Inr assms(2)] .
  show ?thesis
  proof (cases "chunks_needed T 0 (length data) * length data \<le> disk_limit env")
    case True
    then show ?thesis using generate_run [OF assms(1) Inr ne, of T] by auto
  next
    case False
    then show ?thesis using generate_run [OF assms(1) Inr ne, of T] by auto
  qed
qed

lemma generate_handles:
  assumes "s \<noteq> []" and "generate env p T s w = Some (r, w')"
  shows "handles w' = handles w"
proof (cases "open_error env p")
  case (Some e)
  then show ?thesis using assms(2) by (simp add: generate_open_error)
next
  case None
  from generate_shape [OF None assms(1), of T] obtain r0 c where
    "generate env p T s w = Some (r0, w\<lparr>files := (files w)(p \<mapsto> c)\<rparr>)" by blast
  then show ?thesis using assms(2) by auto
qed

lemma generate_disk_full:
  assumes ok: "open_error env p = None"
    and enc: "text_encode (platform_of env) s = Inr data" and ne: "data \<noteq> []"
    and full: "int (disk_limit env) < T"
  shows "generate env p T s w = Some (Inl NoSpaceError,
           w\<lparr>files := (files w)(p \<mapsto> take (disk_limit env)
                (py_repeat data (chunks_needed T 0 (length data))))\<rparr>)"
    and "disk_limit env < length (py_repeat data (chunks_needed T 0 (length data)))"
proof -
  have L: "0 < length data" using ne by simp
  have "T \<le> int (chunks_needed T 0 (length data) * length data)"
    using chunks_needed_reaches [OF L, of T 0] by simp
  hence gt: "disk_limit env < chunks_needed T 0 (length data) * length data"
    using full by linarith
  thus "disk_limit env < length (py_repeat data (chunks_needed T 0 (length data)))"
    by (simp add: length_py_repeat)
  show "generate env p T s w = Some (Inl NoSpaceError,
           w\<lparr>files := (files w)(p \<mapsto> take (disk_limit env)
                (py_repeat data (chunks_needed T 0 (length data))))\<rparr>)"
    using generate_run [OF ok enc ne, of T w] gt by (simp add: py_repeat_def)
qed

text \<open>
  C7. \<^verbatim>\<open>open(path, "w")\<close> truncates: the file is empty when the loop starts. So a second
  run with the same target and chunk on the file system the first successful run left
  gives the same result and the same file system again; whatever the file held before the
  first run is overwritten, not appended to; and the file satisfies the size bound.
\<close>

theorem rerun_idempotent:
  assumes "0 < T" and "s \<noteq> []" and "generate env p T s w = Some (Inr u, w1)"
  shows "files (snd (open_w env p w)) p = Some []
       \<and> generate env p T s w1 = Some (Inr u, w1)
       \<and> (\<forall>old. generate env p T s (w\<lparr>files := (files w)(p \<mapsto> old)\<rparr>) = Some (Inr u, w1))
       \<and> (\<exists>data S. text_encode (platform_of env) s = Inr data \<and> getsize w1 p = Inr S
             \<and> T \<le> int S \<and> int S < T + int (length data))"
proof -
  have ok: "open_error env p = None"
  proof (cases "open_error env p")
    case (Some e)
    then show ?thesis using assms(3) by (simp add: generate_open_error)
  qed simp
  obtain data where enc: "text_encode (platform_of env) s = Inr data"
  proof (cases "text_encode (platform_of env) s")
    case (Inl e)
    then show ?thesis using generate_encode_error [OF ok assms(1) Inl, of w] assms(3) by simp
  qed blast
  have ne: "data \<noteq> []" using text_encode_nonempty [OF enc assms(2)] .
  let ?k = "chunks_needed T 0 (length data)"
  let ?c = "concat (replicate ?k data)"
  have fits: "?k * length data \<le> disk_limit env"
    using generate_run [OF ok enc ne, of T w] assms(3) by (auto split: if_splits)
  have run: "generate env p T s v = Some (Inr (), v\<lparr>files := (files v)(p \<mapsto> ?c)\<rparr>)" for v
    using generate_run [OF ok enc ne, of T v] fits by simp
  have w1: "w1 = w\<lparr>files := (files w)(p \<mapsto> ?c)\<rparr>" using run [of w] assms(3) by simp
  have "0 < length data" using ne by simp
  from chunks_needed_bounds [OF this assms(1)]
  have bounds: "getsize w1 p = Inr (?k * length data) \<and> T \<le> int (?k * length data)
                \<and> int (?k * length data) < T + int (length data)"
    by (simp add: w1 getsize_def length_concat_replicate)
  have "files (snd (open_w env p w)) p = Some []" using ok by (simp add: open_w_def)
  moreover have "generate env p T s w1 = Some (Inr u, w1)" using run [of w1] by (simp add: w1)
  moreover have "\<forall>old. generate env p T s (w\<lparr>files := (files w)(p \<mapsto> old)\<rparr>) = Some (Inr u, w1)"
    using run by (simp add: w1)
  ultimately show ?thesis using enc bounds by blast
qed

lemma truediv_posix: "py_truediv 1048576300 (1024 * 1024) = Inr (262144075 / 262144)"
  by code_simp

lemma truediv_windows: "py_truediv 1048579600 (1024 * 1024) = Inr (65536225 / 65536)"
  by code_simp

lemma chunk_length: "length chunk = 3700"
  by (simp add: chunk_def length_py_repeat)

lemma script_run:
  assumes ok: "open_error env file_path_1mb = None" and room: "1048579800 \<le> disk_limit env"
  shows "\<exists>data. text_encode (platform_of env) chunk = Inr data
     \<and> length data = (case platform_of env of Posix \<Rightarrow> 3700 | Windows \<Rightarrow> 3800)
     \<and> script env w = Some
          (Inr (case platform_of env of
                  Posix \<Rightarrow> (1048576300, 262144075 / 262144)
                | Windows \<Rightarrow> (1048579600, 65536225 / 65536)),
           w\<lparr>files := (files w)(file_path_1mb \<mapsto>
                py_repeat data (case platform_of env of Posix \<Rightarrow> 283399 | Windows \<Rightarrow> 275942))\<rparr>)"
proof -
  obtain data where enc: "text_encode (platform_of env) chunk = Inr data"
    and len: "length data = (case platform_of env of Posix \<Rightarrow> 3700 | Windows \<Rightarrow> 3800)"
    using chunk_encoded_length by blast
  have ne: "data \<noteq> []" using len by (cases "platform_of env") auto
  let ?k = "case platform_of env of Posix \<Rightarrow> 283399 | Windows \<Rightarrow> (275942::nat)"
  have k: "chunks_needed target_size 0 (length data) = ?k"
    unfolding len by (cases "platform_of env") (simp_all add: chunks_needed_def target_size_def)
  have fits: "?k * length data \<le> disk_limit env"
    using room unfolding len by (cases "platform_of env") simp_all
  have gen: "generate env file_path_1mb target_size chunk w =
      Some (Inr (), w\<lparr>files := (files w)(file_path_1mb \<mapsto> py_repeat data ?k)\<rparr>)"
    using generate_run [OF ok enc ne, of target_size w] fits unfolding k
    by (simp add: py_repeat_def)
  have size: "length (py_repeat data ?k)
       = (case platform_of env of Posix \<Rightarrow> 1048576300 | Windows \<Rightarrow> 1048579600)"
    unfolding length_py_repeat len by (cases "platform_of env") simp_all
  have rep: "report_size (w\<lparr>files := (files w)(file_path_1mb \<mapsto> py_repeat data ?k)\<rparr>) file_path_1mb
       = Inr (case platform_of env of
                  Posix \<Rightarrow> (1048576300, 262144075 / 262144)
                | Windows \<Rightarrow> (1048579600, 65536225 / 65536))"
    unfolding report_size_def getsize_def using size truediv_posix truediv_windows
    by (cases "platform_of env") simp_all
  show ?thesis using enc len gen rep by (simp add: script_def)
qed

theorem rerun_idempotent_witness:
  "files (snd (open_w (quiet_env Posix 100) ''f'' empty_world)) ''f'' = Some []
   \<and> generate (quiet_env Posix 100) ''f'' 10 [65, 66, 10]
        (empty_world\<lparr>files := (files empty_world)(''f'' \<mapsto> concat (replicate 4 ''AB\<newline>''))\<rparr>)
      = Some (Inr (),
          empty_world\<lparr>files := (files empty_world)(''f'' \<mapsto> concat (replicate 4 ''AB\<newline>''))\<rparr>)"
  using rerun_idempotent [OF _ _ ex_run] by simp

text \<open>
  C8. An I/O error ends the \<^verbatim>\<open>with\<close> block with that error and nothing is retried or
  cleaned up. When \<^verbatim>\<open>open\<close> fails, the error is the result and the file system is
  untouched. When the disk is full before the target is reached, the result is the error
  and the file stays, holding the bytes that fitted: a proper prefix of what a complete
  run writes. On every exit, with a result or with an error, the open handles are those
  from before the block: the file object has been closed.
\<close>

theorem io_error_propagates:
  assumes "s \<noteq> []"
  shows "(\<forall>e. open_error env p = Some e \<longrightarrow> generate env p T s w = Some (Inl e, w))
       \<and> (\<forall>data. open_error env p = None \<longrightarrow> text_encode (platform_of env) s = Inr data \<longrightarrow>
             int (disk_limit env) < T \<longrightarrow>
               generate env p T s w = Some (Inl NoSpaceError,
                 w\<lparr>files := (files w)(p \<mapsto> take (disk_limit env)
                      (py_repeat data (chunks_needed T 0 (length data))))\<rparr>)
               \<and> disk_limit env < length (py_repeat data (chunks_needed T 0 (length data))))
       \<and> (\<forall>r w'. generate env p T s w = Some (r, w') \<longrightarrow> handles w' = handles w)"
proof (intro conjI allI impI)
  fix e assume "open_error env p = Some e"
  thus "generate env p T s w = Some (Inl e, w)" by (rule generate_open_error)
next
  fix data
  assume ok: "open_error env p = None" and enc: "text_encode (platform_of env) s = Inr data"
    and full: "int (disk_limit env) < T"
  have ne: "data \<noteq> []" using text_encode_nonempty [OF enc assms] .
  show "generate env p T s w = Some (Inl NoSpaceError,
          w\<lparr>files := (files w)(p \<mapsto> take (disk_limit env)
               (py_repeat data (chunks_needed T 0 (length data))))\<rparr>)"
    by (rule generate_disk_full(1) [OF ok enc ne full])
  show "disk_limit env < length (py_repeat data (chunks_needed T 0 (length data)))"
    by (rule generate_disk_full(2) [OF ok enc ne full])
next
  fix r w' assume "generate env p T s w = Some (r, w')"
  thus "handles w' = handles w" by (rule generate_handles [OF assms])
qed

theorem io_error_propagates_witness:
  "generate \<lparr>platform_of = Posix, open_error = (\<lambda>p. Some FileNotFoundError), disk_limit = 100\<rparr>
      ''d/f'' 10 [65, 66, 10] empty_world = Some (Inl FileNotFoundError, empty_world)
   \<and> generate (quiet_env Posix 7) ''f'' 10 [65, 66, 10] empty_world
       = Some (Inl NoSpaceError,
           empty_world\<lparr>files := (files empty_world)(''f'' \<mapsto> take 7 (py_repeat ''AB\<newline>'' 4))\<rparr>)
   \<and> handles (empty_world\<lparr>files := (files empty_world)(''f'' \<mapsto> take 7 (py_repeat ''AB\<newline>'' 4))\<rparr>)
       = handles empty_world"
proof -
  have k: "chunks_needed 10 0 (length ''AB\<newline>'') = 4" by (simp add: chunks_needed_def)
  have a: "generate \<lparr>platform_of = Posix, open_error = (\<lambda>p. Some FileNotFoundError),
              disk_limit = 100\<rparr> ''d/f'' 10 [65, 66, 10] empty_world
           = Some (Inl FileNotFoundError, empty_world)"
    using io_error_propagates [of "[65, 66, 10]"
        "\<lparr>platform_of = Posix, open_error = (\<lambda>p. Some FileNotFoundError), disk_limit = 100\<rparr>"
        "''d/f''" 10 empty_world]
    by simp
  have b: "generate (quiet_env Posix 7) ''f'' 10 [65, 66, 10] empty_world
       = Some (Inl NoSpaceError,
           empty_world\<lparr>files := (files empty_world)(''f'' \<mapsto> take 7 (py_repeat ''AB\<newline>'' 4))\<rparr>)"
    using io_error_propagates [of "[65, 66, 10]" "quiet_env Posix 7" "''f''" 10 empty_world]
      encode_AB_posix k
    by simp
  have c: "handles (empty_world\<lparr>files := (files empty_world)(''f'' \<mapsto> take 7 (py_repeat ''AB\<newline>'' 4))\<rparr>)
       = handles empty_world"
    using io_error_propagates [of "[65, 66, 10]" "quiet_env Posix 7" "''f''" 10 empty_world] b
    by blast
  show ?thesis using a b c by blast
qed

text \<open>
  C2, as the code has it. The chunk is 3700 characters long. One write puts 3700 bytes into
  the file where text mode writes the newline as \<^verbatim>\<open>"\n"\<close>, and 3800 bytes where it
  writes \<^verbatim>\<open>"\r\n"\<close>. A run of the script without I/O error leaves a file of size \<open>S\<close>
  with \<open>1,048,576,000 \<le> S < 1,048,579,800\<close>, a multiple of the bytes of one write:
  \<open>S = 1,048,576,300\<close> in the first case and \<open>S = 1,048,579,600\<close> in the second, and \<open>S\<close> is
  a multiple of 3800 in the second case only.
\<close>

theorem script_file_size:
  assumes "open_error env file_path_1mb = None" and "1048579800 \<le> disk_limit env"
  shows "\<exists>w' S mb data. script env w = Some (Inr (S, mb), w')
       \<and> getsize w' file_path_1mb = Inr S
       \<and> text_encode (platform_of env) chunk = Inr data
       \<and> length data = (case platform_of env of Posix \<Rightarrow> 3700 | Windows \<Rightarrow> 3800)
       \<and> 1048576000 \<le> S \<and> S < 1048579800 \<and> length data dvd S
       \<and> S = (case platform_of env of Posix \<Rightarrow> 1048576300 | Windows \<Rightarrow> 1048579600)
       \<and> (3800 dvd S \<longleftrightarrow> platform_of env = Windows)"
proof -
  obtain data where enc: "text_encode (platform_of env) chunk = Inr data"
    and len: "length data = (case platform_of env of Posix \<Rightarrow> 3700 | Windows \<Rightarrow> 3800)"
    and run: "script env w = Some
          (Inr (case platform_of env of
                  Posix \<Rightarrow> (1048576300, 262144075 / 262144)
                | Windows \<Rightarrow> (1048579600, 65536225 / 65536)),
           w\<lparr>files := (files w)(file_path_1mb \<mapsto>
                py_repeat data (case platform_of env of Posix \<Rightarrow> 283399 | Windows \<Rightarrow> 275942))\<rparr>)"
    using script_run [OF assms, of w] by blast
  show ?thesis
  proof (cases "platform_of env")
    case Posix
    have "\<not> (3800::nat) dvd 1048576300" by simp
    moreover have "(3700::nat) dvd 1048576300" by simp
    ultimately show ?thesis using enc len run Posix
      by (rule_tac x = "w\<lparr>files := (files w)(file_path_1mb \<mapsto> py_repeat data 283399)\<rparr>" in exI,
          rule_tac x = 1048576300 in exI, rule_tac x = "262144075 / 262144" in exI,
          rule_tac x = data in exI)
         (simp add: getsize_def length_py_repeat)
  next
    case Windows
    have "(3800::nat) dvd 1048579600" by simp
    then show ?thesis using enc len run Windows
      by (rule_tac x = "w\<lparr>files := (files w)(file_path_1mb \<mapsto> py_repeat data 275942)\<rparr>" in exI,
          rule_tac x = 1048579600 in exI, rule_tac x = "65536225 / 65536" in exI,
          rule_tac x = data in exI)
         (simp add: getsize_def length_py_repeat)
  qed
qed

theorem script_file_size_witness:
  "\<exists>w' S mb data. script (quiet_env Windows 2000000000) empty_world = Some (Inr (S, mb), w')
       \<and> getsize w' file_path_1mb = Inr S
       \<and> text_encode Windows chunk = Inr data
       \<and> length data = 3800
       \<and> 1048576000 \<le> S \<and> S < 1048579800 \<and> length data dvd S
       \<and> S = 1048579600 \<and> 3800 dvd S"
  using script_file_size [of "quiet_env Windows 2000000000" empty_world] by simp

text \<open>
  C2, as stated, fails where the newline is written as one byte: the script then reports
  1,048,576,300 bytes, which is not a multiple of 3800, and the chunk has 3700 characters.
\<close>

theorem posix_size_counterexample:
  "map_option fst (script (quiet_env Posix 2000000000) empty_world)
     = Some (Inr (1048576300, 262144075 / 262144))
   \<and> \<not> 3800 dvd (1048576300 :: nat) \<and> length chunk = 3700"
proof -
  have "map_option fst (script (quiet_env Posix 2000000000) empty_world)
     = Some (Inr (1048576300, 262144075 / 262144))"
    using script_run [of "quiet_env Posix 2000000000" empty_world] by auto
  moreover have "\<not> 3800 dvd (1048576300 :: nat)" by simp
  ultimately show ?thesis using chunk_length by simp
qed

lemma chunk_nonempty: "chunk \<noteq> []"
  using chunk_length by auto

text \<open>
  C10, as the code has it. For a fixed target, chunk and operating environment (the line
  separator of text mode, the disk limit), every run in which the file can be opened gives
  the same outcome, the same file content and the same size report, whatever the file
  system held before. The script is the instance with \<open>target_size\<close>, \<open>chunk\<close> and
  \<open>file_path_1mb\<close>.
\<close>

theorem run_deterministic:
  assumes "s \<noteq> []" and "open_error env p = None"
  shows "map_option (\<lambda>(r, w'). (r, files w' p, report_size w' p)) (generate env p T s w1)
       = map_option (\<lambda>(r, w'). (r, files w' p, report_size w' p)) (generate env p T s w2)"
proof -
  from generate_shape [OF assms(2,1), of T] obtain r c where
    g: "\<And>w. generate env p T s w = Some (r, w\<lparr>files := (files w)(p \<mapsto> c)\<rparr>)" by blast
  show ?thesis unfolding g [of w1] g [of w2]
    by (simp add: report_size_def getsize_def)
qed

theorem run_deterministic_witness:
  "map_option (\<lambda>(r, w'). (r, files w' ''f'', report_size w' ''f''))
      (generate (quiet_env Posix 100) ''f'' 10 [65, 66, 10] empty_world)
   = map_option (\<lambda>(r, w'). (r, files w' ''f'', report_size w' ''f''))
      (generate (quiet_env Posix 100) ''f'' 10 [65, 66, 10]
         (empty_world\<lparr>files := [''f'' \<mapsto> ''old'', ''g'' \<mapsto> ''other'']\<rparr>))"
  using run_deterministic [of "[65, 66, 10]" "quiet_env Posix 100" "''f''" 10 empty_world
      "empty_world\<lparr>files := [''f'' \<mapsto> ''old'', ''g'' \<mapsto> ''other'']\<rparr>"]
  by simp

text \<open>
  C10, as stated, fails: target and chunk are the script's constants in both runs, and the
  reported size and value differ with the line separator of text mode.
\<close>

theorem platform_counterexample:
  "map_option fst (script (quiet_env Posix 2000000000) empty_world)
   \<noteq> map_option fst (script (quiet_env Windows 2000000000) empty_world)"
proof -
  have P: "map_option fst (script (quiet_env Posix 2000000000) empty_world)
     = Some (Inr (1048576300, 262144075 / 262144))"
    using script_run [of "quiet_env Posix 2000000000" empty_world] by auto
  have W: "map_option fst (script (quiet_env Windows 2000000000) empty_world)
     = Some (Inr (1048579600, 65536225 / 65536))"
    using script_run [of "quiet_env Windows 2000000000" empty_world] by auto
  have "(Some (Inr (1048576300, 262144075 / 262144)) :: (error + nat \<times> rat) option)
      \<noteq> Some (Inr (1048579600, 65536225 / 65536))" by simp
  thus ?thesis unfolding P W .
qed

section \<open>The size report\<close>

text \<open>
  True division rounds to the nearest binary64 value. The quotient of a file size by
  \<open>1024 * 1024 = 2 ^ 20\<close> is itself such a value as long as the size is below \<open>2 ^ 53\<close>,
  so there the result is the exact quotient.
\<close>

lemma two_powi_bitlen:
  assumes "0 < a"
  shows "(2::rat) powi (bitlen a - 1) \<le> of_int a" and "of_int a < (2::rat) powi (bitlen a)"
proof -
  have b1: "1 \<le> bitlen a" using assms by (simp add: bitlen_alt_def)
  have lo: "2 ^ nat (bitlen a - 1) \<le> a" and hi: "a < 2 ^ nat (bitlen a)"
    using bitlen_bounds [OF assms] by simp_all
  have "(2::rat) powi (bitlen a - 1) = of_int (2 ^ nat (bitlen a - 1))"
    using b1 by (simp add: power_int_def)
  also have "\<dots> \<le> of_int a" using lo by (simp only: of_int_le_iff)
  finally show "(2::rat) powi (bitlen a - 1) \<le> of_int a" .
  have "(of_int a :: rat) < of_int (2 ^ nat (bitlen a))" using hi by (simp only: of_int_less_iff)
  also have "\<dots> = 2 powi (bitlen a)" using b1 by (simp add: power_int_def)
  finally show "of_int a < (2::rat) powi (bitlen a)" .
qed

lemma ilog2_bounds:
  assumes "0 < x"
  shows "2 powi (ilog2 x) \<le> x" and "x < 2 powi (ilog2 x + 1)"
proof -
  obtain a b where q: "quotient_of x = (a, b)" by (cases "quotient_of x")
  have bpos: "0 < b" using quotient_of_denom_pos [OF q] .
  have x: "x = of_int a / of_int b" using quotient_of_div [OF q] .
  have apos: "0 < a" using assms bpos unfolding x by (simp add: zero_less_divide_iff)
  define d where "d = bitlen a - bitlen b"
  have il: "ilog2 x = (if 2 powi d \<le> x then d else d - 1)"
    by (simp add: ilog2_def q d_def Let_def)
  have B: "0 < (of_int b :: rat)" using bpos by simp
  have "(2::rat) powi (d - 1) = 2 powi (bitlen a - 1) / 2 powi (bitlen b)"
    unfolding d_def by (simp add: power_int_diff [symmetric] algebra_simps)
  also have "\<dots> \<le> of_int a / 2 powi (bitlen b)"
    using two_powi_bitlen(1) [OF apos] by (simp add: divide_right_mono)
  also have "\<dots> \<le> of_int a / of_int b"
    using two_powi_bitlen(2) [OF bpos] apos B by (simp add: frac_le)
  finally have lo: "(2::rat) powi (d - 1) \<le> x" unfolding x .
  have "x = of_int a / of_int b" by (rule x)
  also have "\<dots> < 2 powi (bitlen a) / of_int b"
    using two_powi_bitlen(2) [OF apos] B by (simp add: divide_strict_right_mono)
  also have "\<dots> \<le> 2 powi (bitlen a) / 2 powi (bitlen b - 1)"
  proof (rule divide_left_mono)
    show "2 powi (bitlen b - 1) \<le> (of_int b :: rat)" using two_powi_bitlen(1) [OF bpos] .
    show "0 \<le> (2::rat) powi bitlen a" by simp
    show "0 < (of_int b :: rat) * 2 powi (bitlen b - 1)" using B by (intro mult_pos_pos) simp_all
  qed
  also have "\<dots> = 2 powi (d + 1)"
    unfolding d_def by (simp add: power_int_diff [symmetric] algebra_simps)
  finally have hi: "x < 2 powi (d + 1)" .
  show "2 powi (ilog2 x) \<le> x" using lo by (simp add: il)
  show "x < 2 powi (ilog2 x + 1)" using hi by (auto simp: il not_le)
qed

lemma round_half_even_error: "\<bar>of_int (round_half_even t) - t\<bar> \<le> 1 / 2"
proof -
  define n where "n = \<lfloor>t\<rfloor>"
  define r where "r = t - of_int n"
  have r: "0 \<le> r" "r < 1" unfolding r_def n_def by linarith+
  have t: "t = of_int n + r" by (simp add: r_def)
  have rhe: "round_half_even t =
      (if r < 1 / 2 then n else if 1 / 2 < r then n + 1 else if even n then n else n + 1)"
    unfolding round_half_even_def Let_def n_def [symmetric] r_def [symmetric] ..
  show ?thesis unfolding rhe using r unfolding r_def by (auto simp: abs_if)
qed

lemma round_half_even_int [simp]: "round_half_even (of_int n) = n"
  by (simp add: round_half_even_def)

lemma powi_two_less_cancel: "(2::rat) powi m < 2 powi n \<Longrightarrow> m < n"
  using power_int_increasing [of n m "2::rat"] by (cases "m < n") auto

lemma round_binary64_positive:
  assumes xpos: "0 < x" and small: "x < 2 powi 1000" and big: "2 powi (- 1000) \<le> x"
  shows "\<exists>y. round_binary64 x = Inr y \<and> \<bar>y - x\<bar> \<le> x / 2 ^ 53
           \<and> y = of_int (round_half_even (x / 2 powi (ilog2 x - 52))) * 2 powi (ilog2 x - 52)"
proof -
  define k where "k = ilog2 x"
  have lo: "2 powi k \<le> x" and hi: "x < 2 powi (k + 1)"
    unfolding k_def using ilog2_bounds [OF xpos] by simp_all
  have "(2::rat) powi (- 1000) < 2 powi (k + 1)" using big hi by simp
  hence k_lo: "- 1001 < k" using powi_two_less_cancel [of "- 1000" "k + 1"] by simp
  have "(2::rat) powi k < 2 powi 1000" using lo small by simp
  hence k_hi: "k < 1000" by (rule powi_two_less_cancel)
  define e where "e = k - 52"
  have e: "max (ilog2 \<bar>x\<bar> - 52) (- 1074) = e"
    using xpos k_lo by (simp add: e_def k_def)
  define t where "t = x / 2 powi e"
  define m where "m = round_half_even t"
  define y where "y = of_int m * (2::rat) powi e"
  have E: "0 < (2::rat) powi e" by simp
  have tx: "t * 2 powi e = x" unfolding t_def by simp
  have "y - x = (of_int m - t) * 2 powi e" unfolding y_def using tx by (simp add: algebra_simps)
  hence "\<bar>y - x\<bar> = \<bar>of_int m - t\<bar> * 2 powi e" using E by (simp add: abs_mult)
  also have "\<dots> \<le> (1 / 2) * 2 powi e"
    using round_half_even_error [of t] E unfolding m_def by (intro mult_right_mono) simp_all
  also have "\<dots> = 2 powi k / 2 ^ 53"
  proof -
    have "(2::rat) powi (e + 52) = 2 powi e * 2 powi 52" by (rule power_int_add) simp
    moreover have "e + 52 = k" by (simp add: e_def)
    ultimately have "(2::rat) powi k = 2 powi e * 2 powi 52" by simp
    thus ?thesis by simp
  qed
  also have "\<dots> \<le> x / 2 ^ 53" using lo by (simp add: divide_right_mono)
  finally have err: "\<bar>y - x\<bar> \<le> x / 2 ^ 53" .
  have "x / 2 ^ 53 \<le> x" using xpos by (simp add: field_simps)
  hence "y \<le> 2 * x" using err by linarith
  also have "\<dots> < 2 * 2 powi 1000" using small by simp
  also have "\<dots> = 2 powi 1001" using power_int_add [of "2::rat" 1 1000] by simp
  also have "\<dots> \<le> 2 powi 1024" by (intro power_int_increasing) simp_all
  finally have no_overflow: "\<not> 2 powi 1024 \<le> y" by simp
  have "round_binary64 x = Inr y"
    using xpos no_overflow
    unfolding round_binary64_def Let_def e y_def m_def t_def
    by simp
  thus ?thesis using err unfolding y_def m_def t_def e_def k_def by blast
qed

lemma truediv_mebibytes:
  fixes S :: nat
  assumes "S < 2 ^ 63"
  shows "\<exists>y. py_truediv (int S) (1024 * 1024) = Inr y
           \<and> \<bar>y - of_nat S / 1048576\<bar> \<le> (of_nat S / 1048576) / 2 ^ 53
           \<and> (S < 2 ^ 53 \<longrightarrow> y = of_nat S / 1048576)"
proof (cases "S = 0")
  case True
  then show ?thesis by (simp add: py_truediv_def round_binary64_def)
next
  case False
  define x :: rat where "x = of_nat S / 1048576"
  have S1: "(1::rat) \<le> of_nat S" using False by simp
  have "(of_nat S :: rat) < of_nat (2 ^ 63)" using assms by (rule of_nat_less_iff [THEN iffD2])
  hence S63: "(of_nat S :: rat) < 2 ^ 63" by simp
  have xpos: "0 < x" using S1 by (simp add: x_def)
  have p20: "(2::rat) powi (- 20) = 1 / 1048576" by (simp add: power_int_minus field_simps)
  have x_lo: "(2::rat) powi (- 20) \<le> x" unfolding p20 x_def using S1 by (simp add: divide_right_mono)
  have x_hi: "x < 2 powi 43"
  proof -
    have "x < 2 ^ 63 / 1048576" unfolding x_def using S63 by (simp add: divide_strict_right_mono)
    thus ?thesis by simp
  qed
  have big: "(2::rat) powi (- 1000) \<le> x"
    using power_int_increasing [of "- 1000" "- 20" "2::rat"] x_lo by simp
  have small: "x < 2 powi 1000"
    using power_int_increasing [of 43 1000 "2::rat"] x_hi by simp
  define k where "k = ilog2 x"
  from round_binary64_positive [OF xpos small big] obtain y where
    rb: "round_binary64 x = Inr y" and err: "\<bar>y - x\<bar> \<le> x / 2 ^ 53"
    and y: "y = of_int (round_half_even (x / 2 powi (k - 52))) * 2 powi (k - 52)"
    unfolding k_def by blast
  have pt: "py_truediv (int S) (1024 * 1024) = Inr y"
    using rb by (simp add: py_truediv_def x_def)
  have exact: "y = x" if "S < 2 ^ 53"
  proof -
    have "(of_nat S :: rat) < of_nat (2 ^ 53)" using that by (rule of_nat_less_iff [THEN iffD2])
    hence "(of_nat S :: rat) < 2 ^ 53" by simp
    hence "x < 2 ^ 53 / 1048576" unfolding x_def by (simp add: divide_strict_right_mono)
    hence x33: "x < 2 powi 33" by simp
    have "(2::rat) powi k \<le> x" unfolding k_def using ilog2_bounds(1) [OF xpos] .
    hence "(2::rat) powi k < 2 powi 33" using x33 by simp
    hence k33: "k < 33" by (rule powi_two_less_cancel)
    define j where "j = nat (32 - k)"
    have j: "int j = 32 - k" using k33 by (simp add: j_def)
    have "(2::rat) powi ((k - 52) + int j) = 2 powi (k - 52) * 2 powi (int j)"
      by (rule power_int_add) simp
    moreover have "(k - 52) + int j = - 20" using j by simp
    ultimately have A: "(2::rat) powi (- 20) = 2 powi (k - 52) * 2 ^ j"
      by (simp only: power_int_of_nat)
    have E: "(2::rat) powi (k - 52) \<noteq> 0" by simp
    have "x = of_nat S * (1 / 1048576)" by (simp add: x_def)
    also have "\<dots> = of_nat S * 2 powi (- 20)" by (simp only: p20)
    also have "\<dots> = of_nat S * (2 powi (k - 52) * 2 ^ j)" by (simp only: A)
    also have "\<dots> = (of_nat S * 2 ^ j) * 2 powi (k - 52)" by (simp only: mult_ac)
    finally have X: "x = (of_nat S * 2 ^ j) * 2 powi (k - 52)" .
    have "x / 2 powi (k - 52) = of_nat S * 2 ^ j"
      by (subst X) (rule nonzero_mult_div_cancel_right [OF E])
    also have "\<dots> = of_int (int S * 2 ^ j)" by simp
    finally have q: "x / 2 powi (k - 52) = of_int (int S * 2 ^ j)" .
    have "y = of_int (int S * 2 ^ j) * 2 powi (k - 52)"
      unfolding y q round_half_even_int ..
    also have "\<dots> = x" unfolding X by simp
    finally show "y = x" .
  qed
  show ?thesis using pt err exact unfolding x_def by blast
qed

lemma script_world:
  assumes "script env w0 = Some (r, w')"
  shows "\<exists>r0. generate env file_path_1mb target_size chunk w0 = Some (r0, w')"
proof (cases "generate env file_path_1mb target_size chunk w0")
  case None
  then show ?thesis using assms by (simp add: script_def)
next
  case (Some a)
  obtain r0 w1 where a: "a = (r0, w1)" by (cases a)
  have "w' = w1" using assms Some a by (cases r0) (simp_all add: script_def)
  then show ?thesis using Some a by simp
qed

text \<open>
  C6. For a file of \<open>S\<close> bytes (\<open>S < 2 ^ 63\<close>, the range of a file size) the size report
  returns \<open>S\<close> and the binary64 value of \<open>S / 1,048,576\<close>: it differs from the exact
  quotient by at most the relative error \<open>2 ^ -53\<close> of one floating-point operation, and it
  is the exact quotient for \<open>S < 2 ^ 53\<close>. No other rounding is applied. The report reads the
  file system and returns a value only: the file system after the script is the one the
  \<^verbatim>\<open>with\<close> block left.
\<close>

theorem report_size_value:
  assumes "files w p = Some c" and "length c < 2 ^ 63"
  shows "(\<exists>mb. report_size w p = Inr (length c, mb)
            \<and> \<bar>mb - of_nat (length c) / 1048576\<bar> \<le> (of_nat (length c) / 1048576) / 2 ^ 53
            \<and> (length c < 2 ^ 53 \<longrightarrow> mb = of_nat (length c) / 1048576))
       \<and> (\<forall>env w0 r w'. script env w0 = Some (r, w') \<longrightarrow>
             (\<exists>r0. generate env file_path_1mb target_size chunk w0 = Some (r0, w')))"
proof
  from truediv_mebibytes [OF assms(2)] obtain y where
    y: "py_truediv (int (length c)) (1024 * 1024) = Inr y"
    and err: "\<bar>y - of_nat (length c) / 1048576\<bar> \<le> (of_nat (length c) / 1048576) / 2 ^ 53"
    and exact: "length c < 2 ^ 53 \<longrightarrow> y = of_nat (length c) / 1048576"
    by blast
  have "report_size w p = Inr (length c, y)"
    unfolding report_size_def getsize_def using assms(1) y by simp
  thus "\<exists>mb. report_size w p = Inr (length c, mb)
            \<and> \<bar>mb - of_nat (length c) / 1048576\<bar> \<le> (of_nat (length c) / 1048576) / 2 ^ 53
            \<and> (length c < 2 ^ 53 \<longrightarrow> mb = of_nat (length c) / 1048576)"
    using err exact by blast
  show "\<forall>env w0 r w'. script env w0 = Some (r, w') \<longrightarrow>
             (\<exists>r0. generate env file_path_1mb target_size chunk w0 = Some (r0, w'))"
    using script_world by blast
qed

theorem report_size_value_witness:
  "report_size (empty_world\<lparr>files := [''f'' \<mapsto> ''abc'']\<rparr>) ''f'' = Inr (3, 3 / 1048576)"
proof -
  have f: "files (empty_world\<lparr>files := [''f'' \<mapsto> ''abc'']\<rparr>) ''f'' = Some ''abc''" by simp
  have l: "length ''abc'' < (2::nat) ^ 63" "length ''abc'' < (2::nat) ^ 53" by simp_all
  from report_size_value [OF f l(1)] obtain mb where
    "report_size (empty_world\<lparr>files := [''f'' \<mapsto> ''abc'']\<rparr>) ''f'' = Inr (length ''abc'', mb)"
    and "length ''abc'' < (2::nat) ^ 53 \<longrightarrow> mb = of_nat (length ''abc'') / 1048576"
    by blast
  thus ?thesis using l(2) by simp
qed

end
